theory Spec2Isabelle
  imports Main
begin

section \<open>Data model of \<open>app.py\<close>\<close>

text \<open>
  The chatbot keeps one \<open>ChatState\<close> object per session and one module-level dictionary
  \<open>otp_store\<close>. Chat messages are the dictionaries \<open>{"role": r, "content": c}\<close> of the
  source; both entries are strings.
\<close>

record message =
  role :: string
  content :: string

record ChatState =
  messages :: "message list"
  email :: "string option"
  otp_verified :: bool
  location :: "string option"

text \<open>The object built by \<open>EmailMessage()\<close> and the four assignments of \<open>send_otp\<close>.\<close>

record EmailMessage =
  msg_content :: string
  msg_subject :: string
  msg_from :: string
  msg_to :: string

text \<open>
  Exceptions that the code can raise: an unbound global name, \<open>messages[-1]\<close> on an empty
  list, and whatever an external service raises (the SMTP block, where it is caught, and
  the text-generation backend, where it is not).
\<close>

datatype exc = NameError string | IndexError | ExternalError

datatype 'a outcome = Returns 'a | Raises exc

text \<open>
  Effects on the outside world are recorded, in program order, in a log that the source
  itself does not have: a write to \<open>otp_store\<close>, an SMTP delivery attempt (the body of the
  \<open>try\<close>), a call of \<open>get_monument_info\<close> with its argument.
\<close>

datatype event =
    StoreWrite string string
  | SmtpAttempt EmailMessage
  | ProviderCall "string option"

text \<open>
  The program state: the session's \<open>ChatState\<close> object (the nodes mutate it in place),
  the module-level \<open>otp_store\<close>, and the effect log.
\<close>

record prog =
  chat :: ChatState
  otp_store :: "string \<rightharpoonup> string"
  trace :: "event list"

text \<open>
  Everything the code takes from outside: the module's global string bindings, the named
  entities \<open>(ent.text, ent.label_)\<close> that spaCy reports for a text (in document order), the
  value \<open>random.randint\<close> returns, whether the SMTP block raises for a message, and the
  backend's answer to a prompt (\<open>None\<close> when it raises).
\<close>

record world =
  globals :: "string \<rightharpoonup> string"
  nlp :: "string \<Rightarrow> (string \<times> string) list"
  randint :: "int \<Rightarrow> int \<Rightarrow> int"
  smtp_raises :: "EmailMessage \<Rightarrow> bool"
  generate_content :: "string \<Rightarrow> string option"

text \<open>
  Lines 16 to 18 bind exactly three string globals from the secrets; no line of the module
  binds \<open>EMAIL_ADDRESS\<close>.
\<close>

definition app_globals :: "string \<Rightarrow> string \<Rightarrow> string \<Rightarrow> (string \<rightharpoonup> string)" where
  "app_globals api_key sender password =
     [''GEMINI_API_KEY'' \<mapsto> api_key, ''EMAIL_SENDER'' \<mapsto> sender, ''EMAIL_PASSWORD'' \<mapsto> password]"

text \<open>The contract of \<open>random.randint(100000, 999999)\<close>: a value within the bounds.\<close>

definition randint_ok :: "world \<Rightarrow> bool" where
  "randint_ok w = (100000 \<le> randint w 100000 999999 \<and> randint w 100000 999999 \<le> 999999)"

section \<open>Python's \<open>str\<close> on integers\<close>

definition digit_char :: "nat \<Rightarrow> char" where
  "digit_char d = ''0123456789'' ! d"

fun str_nat :: "nat \<Rightarrow> string" where
  "str_nat n = (if n < 10 then [digit_char n] else str_nat (n div 10) @ [digit_char (n mod 10)])"

declare str_nat.simps [simp del]

definition str :: "int \<Rightarrow> string" where
  "str i = (if i < 0 then CHR ''-'' # str_nat (nat (- i)) else str_nat (nat i))"

definition is_digit :: "char \<Rightarrow> bool" where
  "is_digit c = (c \<in> set ''0123456789'')"

section \<open>Location extractor\<close>

text \<open>
  \<open>locations = [ent.text for ent in doc.ents if ent.label_ == "GPE"]\<close>, then
  \<open>locations[0] if locations else None\<close>.
\<close>

definition extract_location :: "world \<Rightarrow> string \<Rightarrow> string option" where
  "extract_location w user_input =
     (let locations = map fst (filter (\<lambda>ent. snd ent = ''GPE'') (nlp w user_input))
      in case locations of [] \<Rightarrow> None | l # _ \<Rightarrow> Some l)"

section \<open>OTP authenticator\<close>

text \<open>
  \<open>send_otp\<close>: the code is stored first; the message is built, which reads the global
  \<open>EMAIL_ADDRESS\<close> outside the \<open>try\<close>; the \<open>try\<close> block attempts delivery (reading
  \<open>EMAIL_ADDRESS\<close> and \<open>EMAIL_PASSWORD\<close> for the login) and any exception in it gives
  \<open>False\<close>.
\<close>

definition deliver :: "world \<Rightarrow> EmailMessage \<Rightarrow> prog \<Rightarrow> unit outcome \<times> prog" where
  "deliver w msg p =
     (let p1 = p\<lparr>trace := trace p @ [SmtpAttempt msg]\<rparr>
      in if smtp_raises w msg then (Raises ExternalError, p1)
         else case globals w ''EMAIL_PASSWORD'' of
                None \<Rightarrow> (Raises (NameError ''EMAIL_PASSWORD''), p1)
              | Some _ \<Rightarrow> (Returns (), p1))"

definition send_otp :: "world \<Rightarrow> string \<Rightarrow> prog \<Rightarrow> bool outcome \<times> prog" where
  "send_otp w email_arg p =
     (let otp = str (randint w 100000 999999);
          p1 = p\<lparr>otp_store := (otp_store p)(email_arg \<mapsto> otp),
                 trace := trace p @ [StoreWrite email_arg otp]\<rparr>
      in case globals w ''EMAIL_ADDRESS'' of
           None \<Rightarrow> (Raises (NameError ''EMAIL_ADDRESS''), p1)
         | Some sender \<Rightarrow>
             (let msg = \<lparr>msg_content = ''Your OTP for verification is: '' @ otp,
                        msg_subject = ''Your OTP Code'',
                        msg_from = sender,
                        msg_to = email_arg\<rparr>
              in case deliver w msg p1 of
                   (Returns _, p2) \<Rightarrow> (Returns True, p2)
                 | (Raises _, p2) \<Rightarrow> (Returns False, p2)))"

text \<open>
  \<open>verify_otp\<close>: \<open>otp_store.get(email) == entered_otp\<close>. The first argument is
  \<open>state.email\<close>, which is \<open>None\<close> until an address was stored; the keys of the dictionary
  are strings, so \<open>get(None)\<close> is \<open>None\<close>. The function returns the state it was given.
\<close>

definition store_get :: "(string \<rightharpoonup> string) \<Rightarrow> string option \<Rightarrow> string option" where
  "store_get m k = (case k of None \<Rightarrow> None | Some e \<Rightarrow> m e)"

definition verify_otp :: "string option \<Rightarrow> string \<Rightarrow> prog \<Rightarrow> bool \<times> prog" where
  "verify_otp email_arg entered_otp p = (store_get (otp_store p) email_arg = Some entered_otp, p)"

section \<open>Monument info provider\<close>

text \<open>An f-string prints \<open>None\<close> as the four characters \<open>None\<close>.\<close>

definition format_opt :: "string option \<Rightarrow> string" where
  "format_opt x = (case x of None \<Rightarrow> ''None'' | Some s \<Rightarrow> s)"

definition get_monument_info :: "world \<Rightarrow> string option \<Rightarrow> prog \<Rightarrow> string outcome \<times> prog" where
  "get_monument_info w loc p =
     (let prompt = ''Tell me about the top historical monuments in '' @ format_opt loc
                   @ '' with their significance.'';
          p1 = p\<lparr>trace := trace p @ [ProviderCall loc]\<rparr>
      in case generate_content w prompt of
           None \<Rightarrow> (Raises ExternalError, p1)
         | Some text \<Rightarrow> (Returns text, p1))"

section \<open>Workflow nodes\<close>

definition append_message :: "string \<Rightarrow> string \<Rightarrow> prog \<Rightarrow> prog" where
  "append_message r c p =
     p\<lparr>chat := (chat p)\<lparr>messages := messages (chat p) @ [\<lparr>role = r, content = c\<rparr>]\<rparr>\<rparr>"

text \<open>\<open>state.messages[-1]["content"]\<close>: an empty list raises \<open>IndexError\<close>.\<close>

definition last_content :: "prog \<Rightarrow> string outcome" where
  "last_content p =
     (if messages (chat p) = [] then Raises IndexError
      else Returns (content (last (messages (chat p)))))"

text \<open>\<open>if location:\<close> is false for \<open>None\<close> and for the empty string.\<close>

definition truthy :: "string option \<Rightarrow> bool" where
  "truthy x = (case x of None \<Rightarrow> False | Some s \<Rightarrow> s \<noteq> [])"

definition greeting :: string where
  "greeting = ''Hello! I'' @ [CHR 0x27] @ ''m your historical monument guide. Where are you traveling?''"

definition no_location_reply :: string where
  "no_location_reply = ''I couldn'' @ [CHR 0x27] @ ''t detect a location. Can you mention it explicitly?''"

definition greet_user :: "prog \<Rightarrow> exc option \<times> prog" where
  "greet_user p = (None, append_message ''bot'' greeting p)"

definition get_location :: "world \<Rightarrow> prog \<Rightarrow> exc option \<times> prog" where
  "get_location w p =
     (case last_content p of
        Raises e \<Rightarrow> (Some e, p)
      | Returns user_input \<Rightarrow>
          (let loc = extract_location w user_input
           in if truthy loc
              then (None, append_message ''bot''
                      (''Got it! You are interested in '' @ format_opt loc
                       @ ''. Can I have your email for verification?'')
                      (p\<lparr>chat := (chat p)\<lparr>location := loc\<rparr>\<rparr>))
              else (None, append_message ''bot'' no_location_reply p)))"

definition request_email :: "world \<Rightarrow> prog \<Rightarrow> exc option \<times> prog" where
  "request_email w p =
     (case last_content p of
        Raises e \<Rightarrow> (Some e, p)
      | Returns user_input \<Rightarrow>
          if CHR ''@'' \<in> set user_input
          then (case send_otp w user_input (p\<lparr>chat := (chat p)\<lparr>email := Some user_input\<rparr>\<rparr>) of
                  (Raises e, p1) \<Rightarrow> (Some e, p1)
                | (Returns success, p1) \<Rightarrow>
                    if success
                    then (None, append_message ''bot'' ''OTP sent to your email. Please enter the OTP.'' p1)
                    else (None, append_message ''bot'' ''Failed to send OTP. Try again.'' p1))
          else (None, append_message ''bot'' ''Please enter a valid email address.'' p))"

definition verify_user_otp :: "prog \<Rightarrow> exc option \<times> prog" where
  "verify_user_otp p =
     (case last_content p of
        Raises e \<Rightarrow> (Some e, p)
      | Returns user_input \<Rightarrow>
          (case verify_otp (email (chat p)) user_input p of
             (ok, p1) \<Rightarrow>
               if ok
               then (None, append_message ''bot''
                       ''OTP verified successfully! Fetching historical information...''
                       (p1\<lparr>chat := (chat p1)\<lparr>otp_verified := True\<rparr>\<rparr>))
               else (None, append_message ''bot'' ''Invalid OTP. Try again.'' p1)))"

definition provide_info :: "world \<Rightarrow> prog \<Rightarrow> exc option \<times> prog" where
  "provide_info w p =
     (if otp_verified (chat p)
      then (case get_monument_info w (location (chat p)) p of
              (Raises e, p1) \<Rightarrow> (Some e, p1)
            | (Returns monument_info, p1) \<Rightarrow> (None, append_message ''bot'' monument_info p1))
      else (None, append_message ''bot'' ''OTP not verified. Cannot proceed.'' p))"

section \<open>The compiled graph and the session host\<close>

text \<open>
  The graph is the chain \<open>greet \<rightarrow> extract_location \<rightarrow> request_email \<rightarrow> verify_otp \<rightarrow>
  provide_info\<close> from the entry point \<open>greet\<close>; one invocation runs the nodes along the
  edges, each on the values the previous one returned. Every node works on an instance of
  its own, built from those values; the instances share the one message list, which the
  nodes extend in place. So when a node raises, the invocation ends and the caller's object
  is left with its message list extended and its other entries as they were
  (\<open>restore\<close>); the store and the effect log keep what happened. When every node returns,
  the invocation returns the final values.
\<close>

type_synonym node = "prog \<Rightarrow> exc option \<times> prog"

definition graph_nodes :: "world \<Rightarrow> node list" where
  "graph_nodes w = [greet_user, get_location w, request_email w, verify_user_otp, provide_info w]"

definition restore :: "prog \<Rightarrow> prog \<Rightarrow> prog" where
  "restore p q = q\<lparr>chat := (chat p)\<lparr>messages := messages (chat q)\<rparr>\<rparr>"

fun run_chain :: "node list \<Rightarrow> prog \<Rightarrow> exc option \<times> prog" where
  "run_chain [] p = (None, p)"
| "run_chain (f # fs) p =
     (case f p of
        (None, p1) \<Rightarrow>
          (case run_chain fs p1 of
             (None, q) \<Rightarrow> (None, q)
           | (Some e, q) \<Rightarrow> (Some e, restore p q))
      | (Some e, p1) \<Rightarrow> (Some e, restore p p1))"

definition graph_invoke :: "world \<Rightarrow> prog \<Rightarrow> exc option \<times> prog" where
  "graph_invoke w = run_chain (graph_nodes w)"

text \<open>
  The values on which the nodes of a chain start, in order, followed by the values the
  last node returned; the list ends early where a node raises.
\<close>

fun states_along :: "node list \<Rightarrow> prog \<Rightarrow> prog list" where
  "states_along [] p = [p]"
| "states_along (f # fs) p =
     p # (case f p of (None, p1) \<Rightarrow> states_along fs p1 | (Some e, p1) \<Rightarrow> [])"

text \<open>\<open>ChatState(messages=[])\<close>, the empty \<open>otp_store\<close>, nothing logged.\<close>

definition initial_prog :: prog where
  "initial_prog =
     \<lparr>chat = \<lparr>messages = [], email = None, otp_verified = False, location = None\<rparr>,
      otp_store = Map.empty, trace = []\<rparr>"

text \<open>
  Lines 154 and 157 on a session that holds a \<open>ChatState\<close> object: a non-empty input is
  appended to the object's list as a user message and the graph is invoked once on the
  object; an empty input does nothing. The result is what the invocation returned, or the
  object as the raising invocation left it.
\<close>

definition host_turn :: "world \<Rightarrow> string \<Rightarrow> prog \<Rightarrow> exc option \<times> prog" where
  "host_turn w user_input p =
     (if user_input = [] then (None, p)
      else graph_invoke w (append_message ''user'' user_input p))"

text \<open>
  What \<open>st.session_state["state"]\<close> holds between two runs of the script. Line 145 puts a
  \<open>ChatState\<close> object there. \<open>graph.invoke\<close> returns a dictionary of the four entries, not
  a \<open>ChatState\<close>; line 160 stores that dictionary, and lines 163 and 164, finding no
  \<open>messages\<close> attribute on it, give it an empty one. From then on line 154 appends the
  user's text to that attribute, while the graph reads the dictionary's \<open>messages\<close> entry.
  \<open>Dict d attr\<close> is the dictionary with entries \<open>d\<close> and attribute \<open>attr\<close>.
\<close>

datatype session = Obj ChatState | Dict ChatState "message list"

record app =
  session_state :: session
  effects :: "event list"

definition graph_input :: "session \<Rightarrow> ChatState" where
  "graph_input s = (case s of Obj c \<Rightarrow> c | Dict d attr \<Rightarrow> d)"

definition graph_messages :: "app \<Rightarrow> message list" where
  "graph_messages a = messages (graph_input (session_state a))"

definition initial_app :: app where
  "initial_app =
     \<lparr>session_state = Obj \<lparr>messages = [], email = None, otp_verified = False, location = None\<rparr>,
      effects = []\<rparr>"

text \<open>
  One run of the script with the given input. Streamlit executes the script from the top
  for every input, so line 27 makes \<open>otp_store\<close> empty again; the effect log is carried over.
  With a non-empty input, lines 149 to 164 run: the user's text is appended (to the
  object's list, or to the dictionary's attribute), the graph is invoked on the stored
  value, and the dictionary it returns is stored with an empty attribute. When the
  invocation raises, line 160 is not reached and the stored value stays, with the shared
  message list as the nodes left it.
\<close>

definition script_run :: "world \<Rightarrow> string \<Rightarrow> app \<Rightarrow> exc option \<times> app" where
  "script_run w user_input a =
     (if user_input = [] then (None, a)
      else case session_state a of
        Obj c \<Rightarrow>
          (case host_turn w user_input \<lparr>chat = c, otp_store = Map.empty, trace = effects a\<rparr> of
             (None, q) \<Rightarrow> (None, \<lparr>session_state = Dict (chat q) [], effects = trace q\<rparr>)
           | (Some e, q) \<Rightarrow> (Some e, \<lparr>session_state = Obj (chat q), effects = trace q\<rparr>))
      | Dict d attr \<Rightarrow>
          (case graph_invoke w \<lparr>chat = d, otp_store = Map.empty, trace = effects a\<rparr> of
             (None, q) \<Rightarrow> (None, \<lparr>session_state = Dict (chat q) [], effects = trace q\<rparr>)
           | (Some e, q) \<Rightarrow>
               (Some e, \<lparr>session_state = Dict (chat q) (attr @ [\<lparr>role = ''user'', content = user_input\<rparr>]),
                         effects = trace q\<rparr>)))"

text \<open>
  The list the graph is invoked on in such a run: the object's list with the user's text
  appended, or the dictionary's \<open>messages\<close> entry, which the user's text does not reach.
\<close>

definition input_messages :: "string \<Rightarrow> session \<Rightarrow> message list" where
  "input_messages user_input s =
     (case s of
        Obj c \<Rightarrow> messages c @ [\<lparr>role = ''user'', content = user_input\<rparr>]
      | Dict d attr \<Rightarrow> messages d)"

text \<open>
  A conversation: one world and one input per run of the script. The stored value survives
  a run that raised, so the next run starts from it. \<open>completes\<close> says that every input is
  non-empty and every invocation returns.
\<close>

fun run :: "(world \<times> string) list \<Rightarrow> app \<Rightarrow> app" where
  "run [] a = a"
| "run ((w, u) # ts) a = run ts (snd (script_run w u a))"


section \<open>The stage-dispatching design of the specification\<close>







section \<open>Concrete worlds for the examples\<close>

text \<open>
  A world with the module's own globals in which no entity is recognised, and one in which
  the recogniser finds the city in a sentence that names it.
\<close>

definition quiet_world :: world where
  "quiet_world =
     \<lparr>globals = app_globals ''key'' ''guide@example.org'' ''secret'',
      nlp = (\<lambda>t. []),
      randint = (\<lambda>a b. 123456),
      smtp_raises = (\<lambda>m. False),
      generate_content = (\<lambda>prompt. Some ''The Eiffel Tower.'')\<rparr>"

definition paris_world :: world where
  "paris_world =
     quiet_world\<lparr>nlp := (\<lambda>t. if t = ''I want to visit Paris'' then [(''Paris'', ''GPE'')] else [])\<rparr>"

text \<open>The same with \<open>EMAIL_ADDRESS\<close> bound, as the function body expects, and a variant
  in which the SMTP block raises.\<close>

definition bound_world :: world where
  "bound_world = quiet_world\<lparr>globals := (globals quiet_world)(''EMAIL_ADDRESS'' \<mapsto> ''guide@example.org'')\<rparr>"


definition failing_world :: world where
  "failing_world = bound_world\<lparr>smtp_raises := (\<lambda>m. True)\<rparr>"

text \<open>A world that draws another code, and one whose recogniser reports three entities.\<close>

definition second_world :: world where
  "second_world = quiet_world\<lparr>randint := (\<lambda>a b. 654321)\<rparr>"

definition tour_world :: world where
  "tour_world =
     quiet_world\<lparr>nlp := (\<lambda>t. [(''tomorrow'', ''DATE''), (''Paris'', ''GPE''), (''France'', ''GPE'')])\<rparr>"

text \<open>A world whose recogniser reports a place name that contains \<open>@\<close>.\<close>

definition mail_world :: world where
  "mail_world = quiet_world\<lparr>nlp := (\<lambda>t. [(''a@b'', ''GPE'')])\<rparr>"

section \<open>Auxiliary notions for the statements\<close>

text \<open>A sequence of \<open>send_otp\<close> calls, each with its own world; a call that raises has still
  changed the store, and the next call runs on that store.\<close>

fun send_all :: "(world \<times> string) list \<Rightarrow> prog \<Rightarrow> prog" where
  "send_all [] p = p"
| "send_all ((w, e) # xs) p = send_all xs (snd (send_otp w e p))"

text \<open>The number a string of decimal digits denotes.\<close>

definition digit_value :: "char \<Rightarrow> nat" where
  "digit_value c = of_char c - 48"

definition decimal_value :: "string \<Rightarrow> nat" where
  "decimal_value s = foldl (\<lambda>a c. 10 * a + digit_value c) 0 s"

text \<open>The two kinds of chat message.\<close>

definition bot_msg :: "string \<Rightarrow> message" where
  "bot_msg c = \<lparr>role = ''bot'', content = c\<rparr>"

definition user_msg :: "string \<Rightarrow> message" where
  "user_msg c = \<lparr>role = ''user'', content = c\<rparr>"

text \<open>A node that, whenever it returns, has appended exactly one bot message.\<close>

definition appends_one :: "node \<Rightarrow> bool" where
  "appends_one f =
     (\<forall>p q. f p = (None, q) \<longrightarrow> (\<exists>c. messages (chat q) = messages (chat p) @ [bot_msg c]))"



text \<open>The arguments of the logged calls of \<open>get_monument_info\<close>, in order.\<close>

fun provider_args :: "event list \<Rightarrow> string option list" where
  "provider_args [] = []"
| "provider_args (ProviderCall l # evs) = l # provider_args evs"
| "provider_args (_ # evs) = provider_args evs"

text \<open>A session state with the flag set and a location stored, to exercise the guarded
  branch of \<open>provide_info\<close>.\<close>

definition verified_prog :: prog where
  "verified_prog =
     initial_prog\<lparr>chat := (chat initial_prog)\<lparr>otp_verified := True, location := Some ''Paris''\<rparr>\<rparr>"

text \<open>The state with another transcript, and a node whose behaviour depends on the
  transcript through its non-empty end only: on a longer transcript it does the same and
  carries the extra prefix along.\<close>

definition with_messages :: "message list \<Rightarrow> prog \<Rightarrow> prog" where
  "with_messages ms p = p\<lparr>chat := (chat p)\<lparr>messages := ms\<rparr>\<rparr>"

definition prefix_blind :: "node \<Rightarrow> bool" where
  "prefix_blind f =
     (\<forall>xs ms p. ms \<noteq> [] \<longrightarrow>
        f (with_messages (xs @ ms) p)
          = (case f (with_messages ms p) of (r, q) \<Rightarrow> (r, with_messages (xs @ messages (chat q)) q))
        \<and> messages (chat (snd (f (with_messages ms p)))) \<noteq> [])"

section \<open>Decimal strings\<close>

lemma digit_char_is_digit: "d < 10 \<Longrightarrow> is_digit (digit_char d)"
proof -
  assume "d < 10"
  then have "d \<in> {0,1,2,3,4,5,6,7,8,9}" by auto
  then show ?thesis by (auto simp: is_digit_def digit_char_def)
qed

lemma str_nat_digits: "list_all is_digit (str_nat n)"
proof (induction n rule: str_nat.induct)
  case (1 n)
  show ?case
  proof (cases "n < 10")
    case True
    then show ?thesis by (subst str_nat.simps) (simp add: digit_char_is_digit)
  next
    case False
    with 1 show ?thesis by (subst str_nat.simps) (simp add: digit_char_is_digit)
  qed
qed

lemma str_nat_length: "10 ^ k \<le> n \<Longrightarrow> n < 10 ^ Suc k \<Longrightarrow> length (str_nat n) = Suc k"
proof (induction k arbitrary: n)
  case 0
  then show ?case by (subst str_nat.simps) simp
next
  case (Suc k)
  have "(1::nat) \<le> 10 ^ k" by simp
  then have "(10::nat) \<le> 10 ^ Suc k" by simp
  with Suc.prems have ge: "\<not> n < 10" by linarith
  from Suc.prems have a: "10 * 10 ^ k \<le> n" and b: "n < 10 * 10 ^ Suc k" by simp_all
  from a have "10 ^ k \<le> n div 10" by linarith
  moreover from b have "n div 10 < 10 ^ Suc k" by linarith
  ultimately have "length (str_nat (n div 10)) = Suc k" by (rule Suc.IH)
  with ge show ?case by (subst str_nat.simps) simp
qed

lemma str_six_digits:
  assumes "100000 \<le> n" "n \<le> 999999"
  shows "length (str n) = 6 \<and> list_all is_digit (str n)"
proof -
  have "10 ^ 5 \<le> nat n" "nat n < 10 ^ Suc 5" using assms by auto
  then have "length (str_nat (nat n)) = Suc 5" by (rule str_nat_length)
  with assms show ?thesis by (simp add: str_def str_nat_digits)
qed

lemma digit_value_digit_char: "d < 10 \<Longrightarrow> digit_value (digit_char d) = d"
proof -
  assume "d < 10"
  then have "d \<in> {0,1,2,3,4,5,6,7,8,9}" by auto
  then show ?thesis by (auto simp: digit_value_def digit_char_def)
qed

lemma decimal_value_str_nat: "decimal_value (str_nat n) = n"
proof (induction n rule: str_nat.induct)
  case (1 n)
  show ?case
  proof (cases "n < 10")
    case True
    then show ?thesis by (subst str_nat.simps) (simp add: decimal_value_def digit_value_digit_char)
  next
    case False
    with 1 have "decimal_value (str_nat (n div 10)) = n div 10" by simp
    with False show ?thesis
      by (subst str_nat.simps) (simp add: decimal_value_def digit_value_digit_char)
  qed
qed

section \<open>The OTP authenticator\<close>

lemma send_otp_store:
  "otp_store (snd (send_otp w e p)) = (otp_store p)(e \<mapsto> str (randint w 100000 999999))"
  by (simp add: send_otp_def deliver_def Let_def split: option.splits prod.splits outcome.splits)

lemma send_otp_chat: "chat (snd (send_otp w e p)) = chat p"
  by (simp add: send_otp_def deliver_def Let_def split: option.splits prod.splits outcome.splits)

lemma send_otp_trace:
  "trace (snd (send_otp w e p)) =
     trace p @ StoreWrite e (str (randint w 100000 999999)) #
       (case globals w ''EMAIL_ADDRESS'' of None \<Rightarrow> []
        | Some sender \<Rightarrow> [SmtpAttempt \<lparr>msg_content = ''Your OTP for verification is: '' @ str (randint w 100000 999999),
                        msg_subject = ''Your OTP Code'', msg_from = sender, msg_to = e\<rparr>])"
  by (simp add: send_otp_def deliver_def Let_def split: option.splits prod.splits outcome.splits)

lemma send_otp_result:
  "fst (send_otp w e p) =
     (case globals w ''EMAIL_ADDRESS'' of None \<Rightarrow> Raises (NameError ''EMAIL_ADDRESS'')
      | Some sender \<Rightarrow> Returns (\<not> smtp_raises w \<lparr>msg_content = ''Your OTP for verification is: '' @ str (randint w 100000 999999),
                        msg_subject = ''Your OTP Code'', msg_from = sender, msg_to = e\<rparr> \<and> globals w ''EMAIL_PASSWORD'' \<noteq> None))"
  by (auto simp add: send_otp_def deliver_def Let_def split: option.splits prod.splits outcome.splits)

lemma send_all_other: "e \<notin> snd ` set sends \<Longrightarrow> otp_store (send_all sends p) e = otp_store p e"
  by (induction sends arbitrary: p) (auto simp: send_otp_store)

lemma send_all_append: "send_all (xs @ ys) p = send_all ys (send_all xs p)"
  by (induction xs arbitrary: p) auto

text \<open>
  Claim C4. \<open>verify_otp\<close> is true exactly when a code is stored under the address and
  equals the candidate; it is false for an address without a stored code (and for the
  unset address \<open>None\<close>); it returns the state unchanged, so checking the same candidate
  again gives the same answer.
\<close>

theorem verify_otp_spec:
  "fst (verify_otp (Some e) c p) = (otp_store p e = Some c)
   \<and> fst (verify_otp None c p) = False
   \<and> snd (verify_otp em c p) = p
   \<and> fst (verify_otp em c (snd (verify_otp em c p))) = fst (verify_otp em c p)"
  by (simp add: verify_otp_def store_get_def)

text \<open>
  Claim C2. With the globals the module binds, \<open>send_otp\<close> raises \<open>NameError\<close> for every
  address: \<open>EMAIL_ADDRESS\<close> is read on line 43, before the \<open>try\<close>, and only
  \<open>EMAIL_SENDER\<close> was bound. The exception escapes to the caller.
\<close>

theorem send_otp_name_error:
  "fst (send_otp (w\<lparr>globals := app_globals api_key sender password\<rparr>) e p)
     = Raises (NameError ''EMAIL_ADDRESS'')"
  by (simp add: send_otp_def app_globals_def Let_def)

text \<open>
  Claim C5. Whatever the outcome of the call, the store afterwards holds the new code
  under the address; the write is logged before any delivery attempt; in particular the
  code is stored when the call does not report success.
\<close>

theorem send_otp_stores_before_delivery:
  "otp_store (snd (send_otp w e p)) = (otp_store p)(e \<mapsto> str (randint w 100000 999999))
   \<and> (\<exists>rest. trace (snd (send_otp w e p))
                = trace p @ StoreWrite e (str (randint w 100000 999999)) # rest
              \<and> (\<forall>ev \<in> set rest. \<exists>m. ev = SmtpAttempt m))
   \<and> (fst (send_otp w e p) \<noteq> Returns True
        \<longrightarrow> otp_store (snd (send_otp w e p)) e = Some (str (randint w 100000 999999)))"
  by (auto simp add: send_otp_store send_otp_trace split: option.splits)

theorem send_otp_stores_before_delivery_witness:
  "fst (send_otp failing_world ''a@b.com'' initial_prog) = Returns False
   \<and> fst (send_otp failing_world ''a@b.com'' initial_prog) \<noteq> Returns True
   \<and> otp_store (snd (send_otp failing_world ''a@b.com'' initial_prog)) ''a@b.com'' = Some ''123456''"
  using send_otp_stores_before_delivery [of failing_world "''a@b.com''" initial_prog]
  by (simp add: send_otp_result failing_world_def bound_world_def quiet_world_def app_globals_def
        str_def str_nat.simps digit_char_def)

text \<open>
  Claim C6. After a sequence of sends, an address that no send named keeps its entry, and
  an address holds the code of the last send that named it; after two sends to one
  address, \<open>verify_otp\<close> accepts exactly the second code.
\<close>

theorem otp_last_write_wins:
  "(e \<notin> snd ` set sends \<longrightarrow> otp_store (send_all sends p) e = otp_store p e)
   \<and> (e \<notin> snd ` set post \<longrightarrow>
        otp_store (send_all (pre @ (w, e) # post) p) e = Some (str (randint w 100000 999999)))
   \<and> fst (verify_otp (Some e) c (send_all [(w1, e), (w2, e)] p))
        = (c = str (randint w2 100000 999999))"
  by (auto simp: send_all_other send_all_append send_otp_store verify_otp_def store_get_def)

theorem otp_last_write_wins_witness:
  "''a@b.com'' \<notin> snd ` set [(quiet_world, ''x@y.org'')]
   \<and> otp_store (send_all [(quiet_world, ''x@y.org'')] initial_prog) ''a@b.com'' = None
   \<and> otp_store (send_all ([(quiet_world, ''a@b.com'')] @ (second_world, ''a@b.com'') # [(quiet_world, ''x@y.org'')]) initial_prog) ''a@b.com''
        = Some ''654321''
   \<and> fst (verify_otp (Some ''a@b.com'') ''654321'' (send_all [(quiet_world, ''a@b.com''), (second_world, ''a@b.com'')] initial_prog))
   \<and> \<not> fst (verify_otp (Some ''a@b.com'') ''123456'' (send_all [(quiet_world, ''a@b.com''), (second_world, ''a@b.com'')] initial_prog))"
  using otp_last_write_wins [of "''a@b.com''" "[(quiet_world, ''x@y.org'')]" initial_prog
          "[(quiet_world, ''x@y.org'')]" "[(quiet_world, ''a@b.com'')]" second_world "''654321''" quiet_world second_world]
        otp_last_write_wins [of "''a@b.com''" "[(quiet_world, ''x@y.org'')]" initial_prog
          "[(quiet_world, ''x@y.org'')]" "[(quiet_world, ''a@b.com'')]" second_world "''123456''" quiet_world second_world]
  by (simp add: initial_prog_def second_world_def quiet_world_def str_def str_nat.simps digit_char_def)

text \<open>
  Claim C8. The code is \<open>str\<close> of the value that \<open>random.randint(100000, 999999)\<close>
  returned; for a value within these bounds it is stored under the address, denotes that
  value in decimal, and consists of exactly six digits.
\<close>

theorem send_otp_code_six_digits:
  assumes "randint_ok w"
  shows "\<exists>n. 100000 \<le> n \<and> n \<le> 999999 \<and> n = randint w 100000 999999
           \<and> otp_store (snd (send_otp w e p)) e = Some (str n)
           \<and> int (decimal_value (str n)) = n
           \<and> length (str n) = 6 \<and> list_all is_digit (str n)"
proof -
  let ?n = "randint w 100000 999999"
  from assms have r: "100000 \<le> ?n" "?n \<le> 999999" by (simp_all add: randint_ok_def)
  then have "length (str ?n) = 6 \<and> list_all is_digit (str ?n)" by (rule str_six_digits)
  moreover from r have "int (decimal_value (str ?n)) = ?n"
    by (simp add: str_def decimal_value_str_nat)
  ultimately show ?thesis using r by (simp add: send_otp_store)
qed

theorem send_otp_code_six_digits_witness:
  "randint_ok quiet_world
   \<and> otp_store (snd (send_otp quiet_world ''a@b.com'' initial_prog)) ''a@b.com'' = Some ''123456''
   \<and> length ''123456'' = 6 \<and> list_all is_digit ''123456''"
  using send_otp_code_six_digits [of quiet_world "''a@b.com''" initial_prog]
  by (simp add: randint_ok_def quiet_world_def str_def str_nat.simps digit_char_def)

section \<open>The location extractor\<close>

lemma first_gpe:
  "(case map fst (filter (\<lambda>ent. snd ent = g) xs) of [] \<Rightarrow> None | l # _ \<Rightarrow> Some l) = Some l
   \<longleftrightarrow> (\<exists>pre post. xs = pre @ (l, g) # post \<and> (\<forall>ent \<in> set pre. snd ent \<noteq> g))"
proof (induction xs)
  case Nil
  then show ?case by simp
next
  case (Cons x xs)
  show ?case
  proof (cases "snd x = g")
    case True
    have "(\<exists>pre post. x # xs = pre @ (l, g) # post \<and> (\<forall>ent \<in> set pre. snd ent \<noteq> g)) \<longleftrightarrow> x = (l, g)"
    proof
      assume "\<exists>pre post. x # xs = pre @ (l, g) # post \<and> (\<forall>ent \<in> set pre. snd ent \<noteq> g)"
      then obtain pre post where eq: "x # xs = pre @ (l, g) # post" and no: "\<forall>ent \<in> set pre. snd ent \<noteq> g"
        by blast
      show "x = (l, g)"
      proof (cases pre)
        case Nil
        with eq show ?thesis by simp
      next
        case (Cons y ys)
        with eq have "y = x" by simp
        with Cons no True show ?thesis by simp
      qed
    next
      assume "x = (l, g)"
      then have "x # xs = [] @ (l, g) # xs" by simp
      then show "\<exists>pre post. x # xs = pre @ (l, g) # post \<and> (\<forall>ent \<in> set pre. snd ent \<noteq> g)"
        by (metis empty_iff empty_set)
    qed
    with True show ?thesis by (cases x) auto
  next
    case False
    have "(\<exists>pre post. x # xs = pre @ (l, g) # post \<and> (\<forall>ent \<in> set pre. snd ent \<noteq> g))
          \<longleftrightarrow> (\<exists>pre post. xs = pre @ (l, g) # post \<and> (\<forall>ent \<in> set pre. snd ent \<noteq> g))"
    proof
      assume "\<exists>pre post. x # xs = pre @ (l, g) # post \<and> (\<forall>ent \<in> set pre. snd ent \<noteq> g)"
      then obtain pre post where eq: "x # xs = pre @ (l, g) # post" and no: "\<forall>ent \<in> set pre. snd ent \<noteq> g"
        by blast
      from eq False obtain ys where "pre = x # ys" by (cases pre) auto
      with eq no show "\<exists>pre post. xs = pre @ (l, g) # post \<and> (\<forall>ent \<in> set pre. snd ent \<noteq> g)"
        by auto
    next
      assume "\<exists>pre post. xs = pre @ (l, g) # post \<and> (\<forall>ent \<in> set pre. snd ent \<noteq> g)"
      then obtain pre post where "xs = pre @ (l, g) # post" "\<forall>ent \<in> set pre. snd ent \<noteq> g" by blast
      with False have "x # xs = (x # pre) @ (l, g) # post \<and> (\<forall>ent \<in> set (x # pre). snd ent \<noteq> g)" by simp
      then show "\<exists>pre post. x # xs = pre @ (l, g) # post \<and> (\<forall>ent \<in> set pre. snd ent \<noteq> g)" by blast
    qed
    with False Cons.IH show ?thesis by simp
  qed
qed

lemma none_gpe:
  "(case map fst (filter (\<lambda>ent. snd ent = g) xs) of [] \<Rightarrow> None | l # _ \<Rightarrow> Some l) = None
   \<longleftrightarrow> (\<forall>ent \<in> set xs. snd ent \<noteq> g)"
  by (induction xs) auto

text \<open>
  Claim C9. \<open>extract_location\<close> returns the text of the first entity labelled \<open>GPE\<close> in
  the order the recogniser reports them, and \<open>None\<close> exactly when no entity has that
  label. It is a function of the recogniser's answer alone and has no failing branch.
\<close>

theorem extract_location_first_gpe:
  "(extract_location w t = Some l
      \<longleftrightarrow> (\<exists>pre post. nlp w t = pre @ (l, ''GPE'') # post \<and> (\<forall>ent \<in> set pre. snd ent \<noteq> ''GPE'')))
   \<and> (extract_location w t = None \<longleftrightarrow> (\<forall>ent \<in> set (nlp w t). snd ent \<noteq> ''GPE''))"
  unfolding extract_location_def Let_def by (simp only: first_gpe none_gpe)

theorem extract_location_first_gpe_witness:
  "extract_location tour_world ''We fly to Paris, France tomorrow'' = Some ''Paris''
   \<and> (\<exists>pre post. nlp tour_world ''We fly to Paris, France tomorrow'' = pre @ (''Paris'', ''GPE'') # post
         \<and> (\<forall>ent \<in> set pre. snd ent \<noteq> ''GPE''))
   \<and> extract_location quiet_world ''hello'' = None
   \<and> set (nlp quiet_world ''hello'') = {}"
  using extract_location_first_gpe [of tour_world "''We fly to Paris, France tomorrow''" "''Paris''"]
        extract_location_first_gpe [of quiet_world "''hello''" "''x''"]
  by (simp add: extract_location_def tour_world_def quiet_world_def)

section \<open>One invocation of the graph\<close>

lemma messages_append_message [simp]:
  "messages (chat (append_message r c p)) = messages (chat p) @ [\<lparr>role = r, content = c\<rparr>]"
  by (simp add: append_message_def)

lemma other_append_message [simp]:
  "otp_store (append_message r c p) = otp_store p"
  "trace (append_message r c p) = trace p"
  "email (chat (append_message r c p)) = email (chat p)"
  "otp_verified (chat (append_message r c p)) = otp_verified (chat p)"
  "location (chat (append_message r c p)) = location (chat p)"
  by (simp_all add: append_message_def)

lemma greet_user_appends: "appends_one greet_user"
  by (simp add: appends_one_def greet_user_def bot_msg_def)

lemma get_location_appends: "appends_one (get_location w)"
  by (auto simp: appends_one_def get_location_def bot_msg_def Let_def split: outcome.splits if_splits)

lemma send_otp_messages:
  "send_otp w e p = (r, p1) \<Longrightarrow> messages (chat p1) = messages (chat p)"
  using send_otp_chat [of w e p] by simp

lemma request_email_appends: "appends_one (request_email w)"
  by (auto simp: appends_one_def request_email_def bot_msg_def Let_def
      split: outcome.splits if_splits prod.splits dest!: send_otp_messages)

lemma verify_user_otp_appends: "appends_one verify_user_otp"
  by (auto simp: appends_one_def verify_user_otp_def verify_otp_def bot_msg_def Let_def split: outcome.splits if_splits)

lemma get_monument_info_chat: "chat (snd (get_monument_info w l p)) = chat p"
  by (simp add: get_monument_info_def Let_def split: option.splits)

lemma provide_info_appends: "appends_one (provide_info w)"
  by (auto simp: appends_one_def provide_info_def bot_msg_def Let_def get_monument_info_def
      split: outcome.splits if_splits prod.splits option.splits)


lemma graph_nodes_append: "list_all appends_one (graph_nodes w)"
  by (simp add: graph_nodes_def greet_user_appends get_location_appends request_email_appends
        verify_user_otp_appends provide_info_appends)





lemmas eval_defs =
  host_turn_def graph_invoke_def graph_nodes_def greet_user_def get_location_def request_email_def
  verify_user_otp_def provide_info_def last_content_def extract_location_def truthy_def
  verify_otp_def store_get_def append_message_def initial_prog_def quiet_world_def
  user_msg_def bot_msg_def Let_def

lemmas script_defs =
  script_run_def initial_app_def graph_messages_def graph_input_def input_messages_def




section \<open>Stage dispatch against the chain\<close>









section \<open>The verification gate\<close>

lemma provider_args_append [simp]: "provider_args (xs @ ys) = provider_args xs @ provider_args ys"
  by (induction xs rule: provider_args.induct) auto

lemma restore_simps [simp]:
  "messages (chat (restore p q)) = messages (chat q)"
  "email (chat (restore p q)) = email (chat p)"
  "otp_verified (chat (restore p q)) = otp_verified (chat p)"
  "location (chat (restore p q)) = location (chat p)"
  "otp_store (restore p q) = otp_store q"
  "trace (restore p q) = trace q"
  "restore p (restore p' q) = restore p q"
  by (simp_all add: restore_def)

lemma restore_append [simp]: "restore (append_message r c p) q = restore p q"
  by (simp add: restore_def append_message_def)

lemma run_chain_Cons_if:
  "run_chain (f # fs) p =
     (if fst (f p) = None
      then (if fst (run_chain fs (snd (f p))) = None then run_chain fs (snd (f p))
            else (fst (run_chain fs (snd (f p))), restore p (snd (run_chain fs (snd (f p))))))
      else (fst (f p), restore p (snd (f p))))"
  by (auto split: prod.splits option.splits)

lemma states_along_Cons_if:
  "states_along (f # fs) p = p # (if fst (f p) = None then states_along fs (snd (f p)) else [])"
  by (auto split: prod.splits option.splits)

lemma last_content_append [simp]: "last_content (append_message r c p) = Returns c"
  by (simp add: last_content_def)

lemma greet_user_frame [simp]:
  "fst (greet_user p) = None"
  "snd (greet_user p) = append_message ''bot'' greeting p"
  by (simp_all add: greet_user_def)

lemma get_location_frame [simp]:
  "otp_verified (chat (snd (get_location w p))) = otp_verified (chat p)"
  "email (chat (snd (get_location w p))) = email (chat p)"
  "otp_store (snd (get_location w p)) = otp_store p"
  "trace (snd (get_location w p)) = trace p"
  by (simp_all add: get_location_def Let_def split: outcome.splits)

lemma get_location_location:
  "last_content p = Returns t \<Longrightarrow>
     location (chat (snd (get_location w p)))
       = (if truthy (extract_location w t) then extract_location w t else location (chat p))"
  by (simp add: get_location_def Let_def)

lemma send_otp_fields:
  "send_otp w e p = (r, q) \<Longrightarrow> chat q = chat p"
  "send_otp w e p = (r, q) \<Longrightarrow> otp_store q = (otp_store p)(e \<mapsto> str (randint w 100000 999999))"
  "send_otp w e p = (r, q) \<Longrightarrow> provider_args (trace q) = provider_args (trace p)"
  using send_otp_chat[of w e p] send_otp_store[of w e p] send_otp_trace[of w e p]
  by (auto split: option.splits)

lemma request_email_frame [simp]:
  "otp_verified (chat (snd (request_email w p))) = otp_verified (chat p)"
  "location (chat (snd (request_email w p))) = location (chat p)"
  "provider_args (trace (snd (request_email w p))) = provider_args (trace p)"
  by (auto simp: request_email_def Let_def split: outcome.splits prod.splits dest: send_otp_fields)

lemma codes_upd:
  assumes "ran m \<subseteq> range str"
  shows "ran (m(e \<mapsto> str n)) \<subseteq> range str"
proof
  fix c assume "c \<in> ran (m(e \<mapsto> str n))"
  then obtain k where "(m(e \<mapsto> str n)) k = Some c" by (auto simp: ran_def)
  then have "c = str n \<or> m k = Some c" by (auto split: if_splits)
  with assms show "c \<in> range str" by (auto simp: ran_def)
qed

lemma request_email_store_cases:
  "otp_store (snd (request_email w p)) = otp_store p
   \<or> (\<exists>e. otp_store (snd (request_email w p)) = (otp_store p)(e \<mapsto> str (randint w 100000 999999)))"
  by (auto simp: request_email_def Let_def split: outcome.splits prod.splits if_splits
      dest!: send_otp_fields(2))

lemma request_email_store:
  "ran (otp_store p) \<subseteq> range str \<Longrightarrow> ran (otp_store (snd (request_email w p))) \<subseteq> range str"
  using request_email_store_cases[of w p] codes_upd[of "otp_store p"] by metis

lemma request_email_reply:
  "fst (request_email w p) = None \<Longrightarrow>
     last_content (snd (request_email w p)) \<in>
       {Returns ''OTP sent to your email. Please enter the OTP.'',
        Returns ''Failed to send OTP. Try again.'',
        Returns ''Please enter a valid email address.''}"
  by (auto simp: request_email_def Let_def split: outcome.splits prod.splits if_splits)

lemma str_nat_nonempty: "str_nat n \<noteq> []"
  by (subst str_nat.simps) simp

lemma str_head: "hd (str n) = CHR ''-'' \<or> is_digit (hd (str n))"
proof (cases "n < 0")
  case True
  then show ?thesis by (simp add: str_def)
next
  case False
  have "list_all is_digit (str_nat (nat n))" by (rule str_nat_digits)
  with str_nat_nonempty[of "nat n"] have "is_digit (hd (str_nat (nat n)))"
    by (cases "str_nat (nat n)") auto
  with False show ?thesis by (simp add: str_def)
qed

lemma str_not_reply:
  "str n \<noteq> ''OTP sent to your email. Please enter the OTP.''"
  "str n \<noteq> ''Failed to send OTP. Try again.''"
  "str n \<noteq> ''Please enter a valid email address.''"
  using str_head[of n] by (auto simp: is_digit_def)

lemma verify_user_otp_frame [simp]:
  "location (chat (snd (verify_user_otp p))) = location (chat p)"
  "otp_store (snd (verify_user_otp p)) = otp_store p"
  "trace (snd (verify_user_otp p)) = trace p"
  by (simp_all add: verify_user_otp_def verify_otp_def split: outcome.splits)

lemma verify_user_otp_flag:
  "otp_verified (chat (snd (verify_user_otp p))) =
     (otp_verified (chat p) \<or>
      (\<exists>t. last_content p = Returns t \<and> store_get (otp_store p) (email (chat p)) = Some t))"
  by (auto simp: verify_user_otp_def verify_otp_def split: outcome.splits)

lemma store_get_code:
  "ran m \<subseteq> range str \<Longrightarrow> store_get m k = Some t \<Longrightarrow> \<exists>n. t = str n"
  by (auto simp: store_get_def ran_def split: option.splits)

lemma verify_after_request:
  assumes "fst (request_email w p) = None" "ran (otp_store (snd (request_email w p))) \<subseteq> range str"
  shows "otp_verified (chat (snd (verify_user_otp (snd (request_email w p))))) = otp_verified (chat p)"
proof -
  let ?q = "snd (request_email w p)"
  have "\<not> (\<exists>t. last_content ?q = Returns t \<and> store_get (otp_store ?q) (email (chat ?q)) = Some t)"
  proof
    assume "\<exists>t. last_content ?q = Returns t \<and> store_get (otp_store ?q) (email (chat ?q)) = Some t"
    then obtain t where t: "last_content ?q = Returns t" "store_get (otp_store ?q) (email (chat ?q)) = Some t"
      by blast
    from store_get_code[OF assms(2) t(2)] obtain n where "t = str n" by blast
    with t(1) request_email_reply[OF assms(1)] str_not_reply[of n] show False by auto
  qed
  then show ?thesis by (auto simp: verify_user_otp_flag)
qed

lemma provide_info_frame [simp]:
  "otp_verified (chat (snd (provide_info w p))) = otp_verified (chat p)"
  "location (chat (snd (provide_info w p))) = location (chat p)"
  "otp_store (snd (provide_info w p)) = otp_store p"
  by (simp_all add: provide_info_def get_monument_info_def Let_def split: option.splits)

lemma provide_info_calls:
  "provider_args (trace (snd (provide_info w p)))
     = provider_args (trace p) @ (if otp_verified (chat p) then [location (chat p)] else [])"
  by (simp add: provide_info_def get_monument_info_def Let_def split: option.splits)


lemma get_location_fst_after_append [simp]:
  "fst (get_location w (append_message r c p)) = None"
  by (simp add: get_location_def Let_def)

lemma verify_user_otp_fst:
  "last_content p = Returns t \<Longrightarrow> fst (verify_user_otp p) = None"
  by (simp add: verify_user_otp_def verify_otp_def)

lemma verify_fst_after_request [simp]:
  "fst (request_email w p) = None \<Longrightarrow> fst (verify_user_otp (snd (request_email w p))) = None"
  using request_email_reply[of w p] by (auto intro: verify_user_otp_fst)

lemma graph_invoke_unfold:
  "graph_invoke w p =
     (let g = get_location w (append_message ''bot'' greeting p);
          r = request_email w (snd g);
          v = verify_user_otp (snd r);
          f = provide_info w (snd v)
      in if fst r = None then (if fst f = None then f else (fst f, restore p (snd f)))
         else (fst r, restore p (snd r)))"
  by (auto simp add: graph_invoke_def graph_nodes_def run_chain_Cons_if Let_def prod_eq_iff
        simp del: run_chain.simps(2))

lemma states_along_unfold:
  "states_along (graph_nodes w) p =
     (let p1 = append_message ''bot'' greeting p;
          g = get_location w p1;
          r = request_email w (snd g);
          v = verify_user_otp (snd r);
          f = provide_info w (snd v)
      in p # p1 # snd g #
         (if fst r = None then snd r # snd v # (if fst f = None then [snd f] else []) else []))"
  by (simp add: graph_nodes_def states_along_Cons_if Let_def del: states_along.simps(2))

lemma graph_invoke_location:
  "location (chat (snd (graph_invoke w p)))
     = (if fst (graph_invoke w p) = None \<and> truthy (extract_location w greeting)
        then extract_location w greeting else location (chat p))"
proof -
  let ?p1 = "append_message ''bot'' greeting p"
  have "location (chat (snd (get_location w ?p1)))
          = (if truthy (extract_location w greeting) then extract_location w greeting else location (chat p))"
    by (simp add: get_location_location[where t = greeting])
  then show ?thesis by (auto simp: graph_invoke_unfold Let_def)
qed

lemma graph_invoke_calls:
  "provider_args (trace (snd (graph_invoke w p)))
     = provider_args (trace p) @
       (if 4 < length (states_along (graph_nodes w) p)
           \<and> otp_verified (chat (states_along (graph_nodes w) p ! 4))
        then [location (chat (states_along (graph_nodes w) p ! 4))] else [])"
  by (simp add: graph_invoke_unfold states_along_unfold Let_def provide_info_calls)

lemma graph_invoke_quiet:
  assumes "\<not> otp_verified (chat p)" "ran (otp_store p) \<subseteq> range str" "provider_args (trace p) = []"
  shows "\<not> otp_verified (chat (snd (graph_invoke w p))) \<and> provider_args (trace (snd (graph_invoke w p))) = []"
proof -
  let ?g = "get_location w (append_message ''bot'' greeting p)"
  let ?r = "request_email w (snd ?g)"
  let ?v = "verify_user_otp (snd ?r)"
  let ?f = "provide_info w (snd ?v)"
  have g: "\<not> otp_verified (chat (snd ?g))" "ran (otp_store (snd ?g)) \<subseteq> range str"
    "provider_args (trace (snd ?g)) = []" using assms by simp_all
  have r: "\<not> otp_verified (chat (snd ?r))" "ran (otp_store (snd ?r)) \<subseteq> range str"
    "provider_args (trace (snd ?r)) = []" using g by (simp_all add: request_email_store)
  have v: "fst ?r = None \<Longrightarrow> \<not> otp_verified (chat (snd ?v))"
    using verify_after_request[of w "snd ?g"] r(2) g(1) by simp
  have v2: "provider_args (trace (snd ?v)) = []" using r by simp
  have f: "fst ?r = None \<Longrightarrow> \<not> otp_verified (chat (snd ?f)) \<and> provider_args (trace (snd ?f)) = []"
    using v v2 by (simp add: provide_info_calls)
  from assms r f show ?thesis by (simp add: graph_invoke_unfold Let_def)
qed

lemma script_run_cases:
  assumes "u \<noteq> []"
  obtains p where "chat p = graph_input (session_state a) \<or>
                   chat p = (graph_input (session_state a))\<lparr>messages := input_messages u (session_state a)\<rparr>"
    "otp_store p = Map.empty" "trace p = effects a"
    "fst (script_run w u a) = fst (graph_invoke w p)"
    "graph_input (session_state (snd (script_run w u a))) = chat (snd (graph_invoke w p))"
    "effects (snd (script_run w u a)) = trace (snd (graph_invoke w p))"
proof (cases "session_state a")
  case (Obj c)
  let ?p = "append_message ''user'' u \<lparr>chat = c, otp_store = Map.empty, trace = effects a\<rparr>"
  have "chat ?p = (graph_input (session_state a))\<lparr>messages := input_messages u (session_state a)\<rparr>"
    using Obj by (simp add: graph_input_def input_messages_def append_message_def)
  moreover have "otp_store ?p = Map.empty" "trace ?p = effects a" by simp_all
  moreover have "fst (script_run w u a) = fst (graph_invoke w ?p)"
    "graph_input (session_state (snd (script_run w u a))) = chat (snd (graph_invoke w ?p))"
    "effects (snd (script_run w u a)) = trace (snd (graph_invoke w ?p))"
    using Obj assms
    by (auto simp: script_run_def host_turn_def graph_input_def split: prod.splits option.splits)
  ultimately show ?thesis using that by blast
next
  case (Dict d attr)
  let ?p = "\<lparr>chat = d, otp_store = Map.empty, trace = effects a\<rparr>"
  have "chat ?p = graph_input (session_state a)" using Dict by (simp add: graph_input_def)
  moreover have "otp_store ?p = Map.empty" "trace ?p = effects a" by simp_all
  moreover have "fst (script_run w u a) = fst (graph_invoke w ?p)"
    "graph_input (session_state (snd (script_run w u a))) = chat (snd (graph_invoke w ?p))"
    "effects (snd (script_run w u a)) = trace (snd (graph_invoke w ?p))"
    using Dict assms
    by (auto simp: script_run_def graph_input_def split: prod.splits option.splits)
  ultimately show ?thesis using that by blast
qed

lemma script_run_location:
  "location (graph_input (session_state (snd (script_run w u a))))
     = (if u \<noteq> [] \<and> fst (script_run w u a) = None \<and> truthy (extract_location w greeting)
        then extract_location w greeting else location (graph_input (session_state a)))"
proof (cases "u = []")
  case True
  then show ?thesis by (simp add: script_run_def)
next
  case False
  from script_run_cases[OF False, of a w] obtain p where p:
    "chat p = graph_input (session_state a) \<or>
     chat p = (graph_input (session_state a))\<lparr>messages := input_messages u (session_state a)\<rparr>"
    "fst (script_run w u a) = fst (graph_invoke w p)"
    "graph_input (session_state (snd (script_run w u a))) = chat (snd (graph_invoke w p))" by metis
  from p(1) have "location (chat p) = location (graph_input (session_state a))" by auto
  with p(2,3) False graph_invoke_location[of w p] show ?thesis by simp
qed

lemma script_run_quiet:
  assumes "\<not> otp_verified (graph_input (session_state a))" "provider_args (effects a) = []"
  shows "\<not> otp_verified (graph_input (session_state (snd (script_run w u a))))
         \<and> provider_args (effects (snd (script_run w u a))) = []"
proof (cases "u = []")
  case True
  with assms show ?thesis by (simp add: script_run_def)
next
  case False
  from script_run_cases[OF False, of a w] obtain p where p:
    "chat p = graph_input (session_state a) \<or>
     chat p = (graph_input (session_state a))\<lparr>messages := input_messages u (session_state a)\<rparr>"
    "otp_store p = Map.empty" "trace p = effects a"
    "graph_input (session_state (snd (script_run w u a))) = chat (snd (graph_invoke w p))"
    "effects (snd (script_run w u a)) = trace (snd (graph_invoke w p))" by metis
  from p(1) assms(1) have "\<not> otp_verified (chat p)" by auto
  moreover from p(2) have "ran (otp_store p) \<subseteq> range str" by simp
  moreover from p(3) assms(2) have "provider_args (trace p) = []" by simp
  ultimately show ?thesis using graph_invoke_quiet[of p w] p(4,5) by simp
qed

lemma run_quiet:
  assumes "\<not> otp_verified (graph_input (session_state a))" "provider_args (effects a) = []"
  shows "\<not> otp_verified (graph_input (session_state (run turns a)))
         \<and> provider_args (effects (run turns a)) = []"
  using assms
proof (induction turns arbitrary: a)
  case Nil
  then show ?case by simp
next
  case (Cons t ts)
  obtain w u where t: "t = (w, u)" by (cases t)
  from script_run_quiet[OF Cons.prems, of w u] Cons.IH[of "snd (script_run w u a)"] t
  show ?case by simp
qed

lemma run_location:
  "location (graph_input (session_state a)) = None \<or> truthy (location (graph_input (session_state a))) \<Longrightarrow>
   location (graph_input (session_state (run turns a))) = None
     \<or> truthy (location (graph_input (session_state (run turns a))))"
proof (induction turns arbitrary: a)
  case Nil
  then show ?case by simp
next
  case (Cons t ts)
  obtain w u where t: "t = (w, u)" by (cases t)
  from Cons.prems have "location (graph_input (session_state (snd (script_run w u a)))) = None
      \<or> truthy (location (graph_input (session_state (snd (script_run w u a)))))"
    by (auto simp: script_run_location)
  from Cons.IH[OF this] t show ?case by simp
qed

text \<open>
  Claim C7. \<open>provide_info\<close> calls the provider exactly when \<open>otp_verified\<close> is set, with
  the stored location. An invocation calls it exactly when \<open>provide_info\<close>, the fifth node,
  is reached with the flag set, with the location held at that moment. A run of the script
  changes the stored location only when the invocation returns and the extractor gave a
  non-empty result; a run that raises leaves it as it was. In a conversation from the
  initial session the flag is never set (the text checked against the stored code is
  always the reply \<open>request_email\<close> has just appended, never a code), so the provider is
  never called, in particular never with an unset or empty location; the stored location is
  unset or non-empty throughout.
\<close>

theorem provider_guarded:
  "provider_args (trace (snd (provide_info w p)))
     = provider_args (trace p) @ (if otp_verified (chat p) then [location (chat p)] else [])
   \<and> provider_args (trace (snd (graph_invoke w p)))
       = provider_args (trace p) @
         (if 4 < length (states_along (graph_nodes w) p)
             \<and> otp_verified (chat (states_along (graph_nodes w) p ! 4))
          then [location (chat (states_along (graph_nodes w) p ! 4))] else [])
   \<and> location (graph_input (session_state (snd (script_run w u a))))
       = (if u \<noteq> [] \<and> fst (script_run w u a) = None \<and> truthy (extract_location w greeting)
          then extract_location w greeting else location (graph_input (session_state a)))
   \<and> provider_args (effects (run turns initial_app)) = []
   \<and> otp_verified (graph_input (session_state (run turns initial_app))) = False
   \<and> (location (graph_input (session_state (run turns initial_app))) = None
        \<or> truthy (location (graph_input (session_state (run turns initial_app)))))"
proof -
  have i: "\<not> otp_verified (graph_input (session_state initial_app))"
    "provider_args (effects initial_app) = []"
    "location (graph_input (session_state initial_app)) = None"
    by (simp_all add: initial_app_def graph_input_def)
  from run_quiet[OF i(1,2), of turns] run_location[of initial_app turns] i(3)
    provide_info_calls[of w p] graph_invoke_calls[of w p] script_run_location[of w u a]
  show ?thesis by simp
qed

theorem provider_guarded_witness:
  "otp_verified (chat verified_prog)
   \<and> provider_args (trace (snd (provide_info quiet_world verified_prog))) = [Some ''Paris'']
   \<and> provider_args (trace (snd (graph_invoke quiet_world verified_prog))) = [Some ''Paris'']
   \<and> provider_args (trace (snd (graph_invoke quiet_world initial_prog))) = []
   \<and> fst (script_run tour_world ''hello'' initial_app) = None
   \<and> location (graph_input (session_state (snd (script_run tour_world ''hello'' initial_app)))) = Some ''Paris''
   \<and> fst (script_run mail_world ''hello'' initial_app) = Some (NameError ''EMAIL_ADDRESS'')
   \<and> location (graph_input (session_state (snd (script_run mail_world ''hello'' initial_app)))) = None
   \<and> provider_args (effects (run [(tour_world, ''hello''), (quiet_world, ''a@b.com'')] initial_app)) = []"
  using provider_guarded [of quiet_world verified_prog "''hello''" initial_app
          "[(tour_world, ''hello''), (quiet_world, ''a@b.com'')]"]
        provider_guarded [of tour_world initial_prog "''hello''" initial_app "[]"]
        provider_guarded [of mail_world initial_prog "''hello''" initial_app "[]"]
  by (simp add: eval_defs script_defs verified_prog_def tour_world_def mail_world_def get_monument_info_def
        no_location_reply_def format_opt_def send_otp_def app_globals_def restore_def)

section \<open>What the nodes read\<close>

lemma with_messages_simps [simp]:
  "messages (chat (with_messages ms p)) = ms"
  "email (chat (with_messages ms p)) = email (chat p)"
  "otp_verified (chat (with_messages ms p)) = otp_verified (chat p)"
  "location (chat (with_messages ms p)) = location (chat p)"
  "otp_store (with_messages ms p) = otp_store p"
  "trace (with_messages ms p) = trace p"
  "with_messages ms (with_messages ms' p) = with_messages ms p"
  by (simp_all add: with_messages_def)

lemma with_messages_id: "with_messages (messages (chat p)) p = p"
  by (simp add: with_messages_def)

lemma append_message_with:
  "append_message r c (with_messages ms p) = with_messages (ms @ [\<lparr>role = r, content = c\<rparr>]) p"
  by (simp add: append_message_def with_messages_def)

lemma last_content_with:
  "ms \<noteq> [] \<Longrightarrow> last_content (with_messages (xs @ ms) p) = Returns (content (last ms))"
  "ms \<noteq> [] \<Longrightarrow> last_content (with_messages ms p) = Returns (content (last ms))"
  by (simp_all add: last_content_def)

lemma send_otp_with:
  "send_otp w e (with_messages ms p) = (fst (send_otp w e p), with_messages ms (snd (send_otp w e p)))"
  by (simp add: send_otp_def deliver_def with_messages_def Let_def split: option.splits)

lemma get_monument_info_with:
  "get_monument_info w l (with_messages ms p)
     = (fst (get_monument_info w l p), with_messages ms (snd (get_monument_info w l p)))"
  by (simp add: get_monument_info_def with_messages_def Let_def split: option.splits)

lemma greet_user_blind: "prefix_blind greet_user"
  by (simp add: prefix_blind_def greet_user_def append_message_with)

lemma with_messages_field_upd:
  "(with_messages ms p)\<lparr>chat := (chat (with_messages ms p))\<lparr>location := l\<rparr>\<rparr>
     = with_messages ms (p\<lparr>chat := (chat p)\<lparr>location := l\<rparr>\<rparr>)"
  "(with_messages ms p)\<lparr>chat := (chat (with_messages ms p))\<lparr>email := e\<rparr>\<rparr>
     = with_messages ms (p\<lparr>chat := (chat p)\<lparr>email := e\<rparr>\<rparr>)"
  "(with_messages ms p)\<lparr>chat := (chat (with_messages ms p))\<lparr>otp_verified := b\<rparr>\<rparr>
     = with_messages ms (p\<lparr>chat := (chat p)\<lparr>otp_verified := b\<rparr>\<rparr>)"
  by (simp_all add: with_messages_def)

lemma get_location_blind: "prefix_blind (get_location w)"
  unfolding prefix_blind_def
proof (intro allI impI)
  fix xs ms p
  assume "ms \<noteq> ([]::message list)"
  then show "get_location w (with_messages (xs @ ms) p)
          = (case get_location w (with_messages ms p) of (r, q) \<Rightarrow> (r, with_messages (xs @ messages (chat q)) q))
        \<and> messages (chat (snd (get_location w (with_messages ms p)))) \<noteq> []"
    by (simp add: get_location_def last_content_with Let_def with_messages_field_upd append_message_with)
qed

lemma request_email_blind: "prefix_blind (request_email w)"
  unfolding prefix_blind_def
proof (intro allI impI)
  fix xs ms p
  assume "ms \<noteq> ([]::message list)"
  then show "request_email w (with_messages (xs @ ms) p)
          = (case request_email w (with_messages ms p) of (r, q) \<Rightarrow> (r, with_messages (xs @ messages (chat q)) q))
        \<and> messages (chat (snd (request_email w (with_messages ms p)))) \<noteq> []"
    by (simp add: request_email_def last_content_with with_messages_field_upd send_otp_with
          append_message_with split: outcome.splits)
qed

lemma verify_user_otp_blind: "prefix_blind verify_user_otp"
  unfolding prefix_blind_def
proof (intro allI impI)
  fix xs ms p
  assume "ms \<noteq> ([]::message list)"
  then show "verify_user_otp (with_messages (xs @ ms) p)
          = (case verify_user_otp (with_messages ms p) of (r, q) \<Rightarrow> (r, with_messages (xs @ messages (chat q)) q))
        \<and> messages (chat (snd (verify_user_otp (with_messages ms p)))) \<noteq> []"
    by (simp add: verify_user_otp_def verify_otp_def last_content_with with_messages_field_upd
          append_message_with)
qed

lemma provide_info_blind: "prefix_blind (provide_info w)"
  unfolding prefix_blind_def
proof (intro allI impI)
  fix xs ms p
  assume "ms \<noteq> ([]::message list)"
  then show "provide_info w (with_messages (xs @ ms) p)
          = (case provide_info w (with_messages ms p) of (r, q) \<Rightarrow> (r, with_messages (xs @ messages (chat q)) q))
        \<and> messages (chat (snd (provide_info w (with_messages ms p)))) \<noteq> []"
    by (simp add: provide_info_def get_monument_info_with append_message_with get_monument_info_chat
          split: outcome.splits)
qed

lemma restore_with:
  "restore (with_messages ms p) q = restore p q"
  "restore p (with_messages ms q) = with_messages ms (restore p q)"
  by (simp_all add: restore_def with_messages_def)

lemma run_chain_blind:
  assumes "list_all prefix_blind fs" "ms \<noteq> []"
  shows "run_chain fs (with_messages (xs @ ms) p)
           = (case run_chain fs (with_messages ms p) of (r, q) \<Rightarrow> (r, with_messages (xs @ messages (chat q)) q))
         \<and> messages (chat (snd (run_chain fs (with_messages ms p)))) \<noteq> []"
  using assms
proof (induction fs arbitrary: ms p)
  case Nil
  then show ?case by simp
next
  case (Cons f fs)
  obtain r q where fq: "f (with_messages ms p) = (r, q)" by (cases "f (with_messages ms p)")
  from Cons.prems have pb: "prefix_blind f" and rest: "list_all prefix_blind fs" by simp_all
  from pb Cons.prems(2) have "f (with_messages (xs @ ms) p)
          = (case f (with_messages ms p) of (r, q) \<Rightarrow> (r, with_messages (xs @ messages (chat q)) q))
        \<and> messages (chat (snd (f (with_messages ms p)))) \<noteq> []"
    unfolding prefix_blind_def by blast
  with fq have f1: "f (with_messages (xs @ ms) p) = (r, with_messages (xs @ messages (chat q)) q)"
    and ne: "messages (chat q) \<noteq> []" by simp_all
  show ?case
  proof (cases r)
    case (Some e)
    with fq f1 ne show ?thesis by (simp add: restore_with)
  next
    case None
    have q: "with_messages (messages (chat q)) q = q" by (rule with_messages_id)
    obtain r2 q2 where rq: "run_chain fs q = (r2, q2)" by (cases "run_chain fs q")
    from Cons.IH[OF rest ne, of q] q rq
    have ih: "run_chain fs (with_messages (xs @ messages (chat q)) q)
                = (r2, with_messages (xs @ messages (chat q2)) q2)"
      and ne2: "messages (chat q2) \<noteq> []" by simp_all
    show ?thesis
    proof (cases r2)
      case None
      with \<open>r = None\<close> fq f1 rq ih ne2 show ?thesis by simp
    next
      case (Some e)
      with \<open>r = None\<close> fq f1 rq ih ne2 show ?thesis by (simp add: restore_with)
    qed
  qed
qed

lemma host_turn_blind:
  assumes "u \<noteq> []"
  shows "host_turn w u p =
           (case graph_invoke w (with_messages [] p) of
              (r, q) \<Rightarrow> (r, with_messages (messages (chat p) @ user_msg u # messages (chat q)) q))"
proof -
  let ?rest = "[get_location w, request_email w, verify_user_otp, provide_info w]"
  let ?g = "[bot_msg greeting]"
  let ?xs = "messages (chat p) @ [user_msg u]"
  have rest: "list_all prefix_blind ?rest"
    by (simp add: get_location_blind request_email_blind verify_user_otp_blind provide_info_blind)
  obtain r q where rq: "run_chain ?rest (with_messages ?g p) = (r, q)"
    by (cases "run_chain ?rest (with_messages ?g p)")
  from run_chain_blind[OF rest, where ms = ?g and xs = ?xs and p = p] rq
  have long: "run_chain ?rest (with_messages (?xs @ ?g) p) = (r, with_messages (?xs @ messages (chat q)) q)"
    by simp
  have p0: "append_message ''user'' u p = with_messages ?xs p"
    by (simp add: append_message_def with_messages_def user_msg_def)
  have short: "graph_invoke w (with_messages [] p)
                 = (r, if r = None then q else restore p q)"
    using rq
    by (cases r) (simp_all add: graph_invoke_def graph_nodes_def greet_user_def append_message_with
        bot_msg_def restore_with del: run_chain.simps(2) add: run_chain.simps(2)[of greet_user])
  have "host_turn w u p
          = (r, if r = None then with_messages (?xs @ messages (chat q)) q
                else with_messages (?xs @ messages (chat q)) (restore p q))"
    using assms long
    by (cases r) (simp_all add: host_turn_def graph_invoke_def graph_nodes_def greet_user_def p0
        append_message_with bot_msg_def restore_with del: run_chain.simps(2)
        add: run_chain.simps(2)[of greet_user])
  with short show ?thesis by simp
qed

lemma states_along_head: "states_along fs p ! 0 = p"
  by (cases fs) simp_all

lemma states_along_steps:
  "list_all appends_one fs \<Longrightarrow> Suc i < length (states_along fs p) \<Longrightarrow>
     \<exists>c. messages (chat (states_along fs p ! Suc i)) = messages (chat (states_along fs p ! i)) @ [bot_msg c]"
proof (induction fs arbitrary: p i)
  case Nil
  then show ?case by simp
next
  case (Cons f fs)
  obtain r q where fq: "f p = (r, q)" by (cases "f p")
  show ?case
  proof (cases r)
    case (Some e)
    with fq Cons.prems(2) show ?thesis by simp
  next
    case None
    with fq have st: "states_along (f # fs) p = p # states_along fs q" by simp
    from Cons.prems(1) have f: "appends_one f" and rest: "list_all appends_one fs" by simp_all
    show ?thesis
    proof (cases i)
      case 0
      from f fq None have "\<exists>c. messages (chat q) = messages (chat p) @ [bot_msg c]"
        unfolding appends_one_def by blast
      with 0 st show ?thesis by (simp add: states_along_head)
    next
      case (Suc j)
      with Cons.prems(2) st have "Suc j < length (states_along fs q)" by simp
      from Cons.IH[OF rest this] Suc st show ?thesis by simp
    qed
  qed
qed

text \<open>
  Claim C10, as stated, fails in its last part: the successor of the first node reads the
  greeting, not the user's text. The user names a city the recogniser knows, and the
  node finds no location.
\<close>

theorem successor_reads_greeting_counterexample:
  "extract_location paris_world ''I want to visit Paris'' = Some ''Paris''
   \<and> last_content (states_along (graph_nodes paris_world)
                     (append_message ''user'' ''I want to visit Paris'' initial_prog) ! 1)
       = Returns greeting
   \<and> greeting \<noteq> ''I want to visit Paris''
   \<and> location (chat (snd (host_turn paris_world ''I want to visit Paris'' initial_prog))) = None
   \<and> messages (chat (snd (host_turn paris_world ''I want to visit Paris'' initial_prog))) ! 2
       = bot_msg no_location_reply"
  by (simp add: eval_defs paris_world_def greeting_def no_location_reply_def)

text \<open>
  Claim C10, amended. Along the chain, every node that returns has appended one bot
  message, and that message is the last one, the one \<open>state.messages[-1]\<close> gives the next
  node. No node reads the user's text: an invocation behaves as on an empty transcript,
  and the old transcript and the user message are carried along in front of the replies.
\<close>

theorem handlers_read_preceding_reply:
  "(\<forall>i. Suc i < length (states_along (graph_nodes w) p0) \<longrightarrow>
        (\<exists>c. messages (chat (states_along (graph_nodes w) p0 ! Suc i))
                = messages (chat (states_along (graph_nodes w) p0 ! i)) @ [bot_msg c]
            \<and> last_content (states_along (graph_nodes w) p0 ! Suc i) = Returns c))
   \<and> (u \<noteq> [] \<longrightarrow>
        host_turn w u p =
          (case graph_invoke w (with_messages [] p) of
             (r, q) \<Rightarrow> (r, with_messages (messages (chat p) @ user_msg u # messages (chat q)) q)))"
proof (intro conjI allI impI)
  fix i
  assume "Suc i < length (states_along (graph_nodes w) p0)"
  from states_along_steps[OF graph_nodes_append this] obtain c where
    c: "messages (chat (states_along (graph_nodes w) p0 ! Suc i))
          = messages (chat (states_along (graph_nodes w) p0 ! i)) @ [bot_msg c]" by blast
  then have "last_content (states_along (graph_nodes w) p0 ! Suc i) = Returns c"
    by (simp add: last_content_def bot_msg_def)
  with c show "\<exists>c. messages (chat (states_along (graph_nodes w) p0 ! Suc i))
                = messages (chat (states_along (graph_nodes w) p0 ! i)) @ [bot_msg c]
            \<and> last_content (states_along (graph_nodes w) p0 ! Suc i) = Returns c" by blast
next
  assume "u \<noteq> []"
  then show "host_turn w u p =
          (case graph_invoke w (with_messages [] p) of
             (r, q) \<Rightarrow> (r, with_messages (messages (chat p) @ user_msg u # messages (chat q)) q))"
    by (rule host_turn_blind)
qed

theorem handlers_read_preceding_reply_witness:
  "length (states_along (graph_nodes paris_world)
             (append_message ''user'' ''I want to visit Paris'' initial_prog)) = 6
   \<and> last_content (states_along (graph_nodes paris_world)
                     (append_message ''user'' ''I want to visit Paris'' initial_prog) ! Suc 0)
       = Returns greeting
   \<and> last_content (states_along (graph_nodes paris_world)
                     (append_message ''user'' ''I want to visit Paris'' initial_prog) ! Suc (Suc 0))
       = Returns no_location_reply
   \<and> last_content (states_along (graph_nodes paris_world)
                     (append_message ''user'' ''I want to visit Paris'' initial_prog) ! Suc (Suc (Suc 0)))
       = Returns ''Please enter a valid email address.''
   \<and> ''I want to visit Paris'' \<noteq> []
   \<and> host_turn paris_world ''I want to visit Paris'' initial_prog =
        (case graph_invoke paris_world (with_messages [] initial_prog) of
           (r, q) \<Rightarrow> (r, with_messages (messages (chat initial_prog)
                                        @ user_msg ''I want to visit Paris'' # messages (chat q)) q))"
  using handlers_read_preceding_reply [of paris_world
          "append_message ''user'' ''I want to visit Paris'' initial_prog"
          "''I want to visit Paris''" initial_prog]
  by (simp add: eval_defs paris_world_def greeting_def no_location_reply_def)

end
